theory Spec2Isabelle
  imports Complex_Main
begin

section \<open>Python values used by both programs\<close>

text \<open>
  Python floats (durations, clock readings, pixel coordinates) are modelled as exact
  rationals: no claim below depends on rounding.  Python integers are \<open>int\<close>.
  A \<open>str\<close> is a \<open>string\<close> whose characters are the code points below 256.
\<close>

type_synonym seconds = rat

text \<open>\<^verbatim>\<open>int(r)\<close> on a float: truncation towards zero.\<close>

definition py_int :: "rat \<Rightarrow> int" where
  "py_int r = (if 0 \<le> r then \<lfloor>r\<rfloor> else \<lceil>r\<rceil>)"

text \<open>\<^verbatim>\<open>str(n)\<close> on an integer: decimal digits, with a leading minus sign.\<close>

fun digits :: "nat \<Rightarrow> string" where
  "digits n = (if n < 10 then [char_of (48 + n)] else digits (n div 10) @ [char_of (48 + n mod 10)])"

declare digits.simps [simp del]

definition py_str :: "int \<Rightarrow> string" where
  "py_str i = (if i < 0 then CHR ''-'' # digits (nat (- i)) else digits (nat i))"

text \<open>
  \<^verbatim>\<open>str.isspace\<close> on one character (code points below 256): tab, the line breaks,
  the separators 28 to 31, the space, NEL (133) and the no-break space (160).
\<close>

definition is_space :: "char \<Rightarrow> bool" where
  "is_space c = (let n = (of_char c :: nat) in
     (9 \<le> n \<and> n \<le> 13) \<or> (28 \<le> n \<and> n \<le> 32) \<or> n = 133 \<or> n = 160)"

text \<open>\<^verbatim>\<open>s.strip()\<close>: leading and trailing whitespace removed.\<close>

definition strip :: "string \<Rightarrow> string" where
  "strip s = rev (dropWhile is_space (rev (dropWhile is_space s)))"

text \<open>\<^verbatim>\<open>s.replace(" ", "")\<close> and \<^verbatim>\<open>s.replace("O", "0")\<close>: single-character patterns.\<close>

definition remove_spaces :: "string \<Rightarrow> string" where
  "remove_spaces s = filter (\<lambda>c. c \<noteq> CHR '' '') s"

definition letter_O_to_zero :: "string \<Rightarrow> string" where
  "letter_O_to_zero s = map (\<lambda>c. if c = CHR ''O'' then CHR ''0'' else c) s"

text \<open>\<^verbatim>\<open>s.lower()\<close> on code points below 256: A to Z and the Latin-1 capitals.\<close>

definition lower_char :: "char \<Rightarrow> char" where
  "lower_char c = (let n = (of_char c :: nat) in
     if (65 \<le> n \<and> n \<le> 90) \<or> (192 \<le> n \<and> n \<le> 222 \<and> n \<noteq> 215) then char_of (n + 32) else c)"

definition lower :: "string \<Rightarrow> string" where
  "lower s = map lower_char s"

section \<open>Injected input and other effects\<close>

text \<open>
  Keys are pynput's \<^verbatim>\<open>Key.left\<close>, \<^verbatim>\<open>Key.right\<close>, \<^verbatim>\<open>Key.shift\<close>, \<^verbatim>\<open>Key.f8\<close>, or a
  key given by its text (\<^verbatim>\<open>'w'\<close>, \<^verbatim>\<open>'g'\<close>, a configured key).
\<close>

datatype key = KStr string | KLeft | KRight | KShift | KF8

datatype signal = ForceInterrupt | GlobalPause | PartialPause

datatype loop = DetectionLoop | DebugWindow | MovementLoop | AssistClick | AssistKey
  | PeriodicKey | AutoSell

text \<open>
  Every effect a modelled function has on the outside world, in program order.
  \<open>Click x y\<close> is \<^verbatim>\<open>pyautogui.click(x, y)\<close>, \<open>ClickHere\<close> is \<^verbatim>\<open>pyautogui.click()\<close>,
  \<open>Tap k\<close> is \<^verbatim>\<open>keyboard.press_and_release(k)\<close>, \<open>Sleep d\<close> is \<^verbatim>\<open>time.sleep(d)\<close>,
  \<open>SetSignal\<close> and \<open>ClearSignal\<close> are \<^verbatim>\<open>Event.set()\<close> and \<^verbatim>\<open>Event.clear()\<close>,
  \<open>Join t d\<close> is \<^verbatim>\<open>t.join(timeout=d)\<close>, \<open>Nudge\<close> runs the external nudge program,
  \<open>WebhookAlert\<close> and \<open>DiscordMessage\<close> post to the webhook, \<open>StopAutomation\<close> sets
  the stop flag, \<open>StartItemScan\<close> starts the thread of the item scan and
  \<open>RemoveHotkey\<close> unregisters the stop hotkey.
\<close>

datatype action =
    Click rat rat
  | ClickHere
  | MouseDown
  | MouseUp
  | MoveTo int int seconds
  | KeyPress key
  | KeyRelease key
  | Tap key
  | Sleep seconds
  | SetSignal signal
  | ClearSignal signal
  | Join loop seconds
  | Nudge
  | WebhookAlert
  | DiscordMessage string
  | StopAutomation
  | StartItemScan
  | RemoveHotkey

section \<open>TextCueMatcher\<close>

text \<open>
  \<^verbatim>\<open>reader.readtext\<close> is the external recogniser; one recognition is the box, the
  text and the confidence.  With \<^verbatim>\<open>detail=0\<close> the recogniser hands back the texts
  alone.
\<close>

record recognition =
  r_text :: string
  r_conf :: rat

definition readtext_detail0 :: "recognition list \<Rightarrow> string list" where
  "readtext_detail0 rs = map r_text rs"

text \<open>The normalisation of \<^verbatim>\<open>_contains_ocr_text\<close>.\<close>

definition cleaned :: "string \<Rightarrow> string" where
  "cleaned t = letter_O_to_zero (remove_spaces (strip t))"

fun contains_loop :: "string \<Rightarrow> string list \<Rightarrow> bool" where
  "contains_loop target [] = False"
| "contains_loop target (t # ts) = (if cleaned t = target then True else contains_loop target ts)"

definition contains_ocr_text :: "string \<Rightarrow> recognition list \<Rightarrow> bool" where
  "contains_ocr_text target screen = contains_loop target (readtext_detail0 screen)"

text \<open>
  \<^verbatim>\<open>detect_special_items\<close>: the keyword list is the source's; the metric
  \<^verbatim>\<open>fuzz.partial_ratio\<close> belongs to the rapidfuzz library and is a parameter.
  The inner loop over the keywords stops at the first keyword scoring 75 or more and
  keeps the recognised text in \<^verbatim>\<open>found_keyword\<close>; the outer loop over the
  recognitions stops as soon as \<^verbatim>\<open>found_keyword\<close> is truthy, which an empty text is
  not: a match on an empty text stops nothing and reports nothing.
\<close>

definition item_keywords :: "string list" where
  "item_keywords = [''mythic'', ''exotic'', ''ex@tic'', ''aetherite'']"

fun keyword_loop :: "(string \<Rightarrow> string \<Rightarrow> rat) \<Rightarrow> string \<Rightarrow> string list \<Rightarrow> bool" where
  "keyword_loop partial_ratio text_clean [] = False"
| "keyword_loop partial_ratio text_clean (kw # kws) =
     (if partial_ratio text_clean kw \<ge> 75 then True else keyword_loop partial_ratio text_clean kws)"

fun results_loop :: "(string \<Rightarrow> string \<Rightarrow> rat) \<Rightarrow> recognition list \<Rightarrow> string option" where
  "results_loop partial_ratio [] = None"
| "results_loop partial_ratio (r # rs) =
     (if r_conf r > 1 / 2 \<and> keyword_loop partial_ratio (strip (lower (r_text r))) item_keywords
         \<and> r_text r \<noteq> []
      then Some (r_text r)
      else results_loop partial_ratio rs)"

text \<open>
  What \<^verbatim>\<open>detect_special_items\<close> does with the item region set and one reading of it:
  the matched text, if any, and the effects.  The message sent is built from
  \<^verbatim>\<open>found_keyword.upper()\<close>; the model keeps the matched text itself.
\<close>

definition detect_special_items ::
  "(string \<Rightarrow> string \<Rightarrow> rat) \<Rightarrow> bool \<Rightarrow> recognition list \<Rightarrow> string option \<times> action list" where
  "detect_special_items partial_ratio has_region screen =
     (if \<not> has_region then (None, [Sleep (1 / 5)])
      else case results_loop partial_ratio screen of
             None \<Rightarrow> (None, [Sleep (1 / 5), Sleep (1 / 5)])
           | Some t \<Rightarrow> (Some t, [Sleep (1 / 5), StopAutomation, DiscordMessage t]))"


section \<open>WorkflowStateMachine: the text-cue automation\<close>

text \<open>
  The configuration \<^verbatim>\<open>_collect_configuration\<close> gathers.  The two screen regions are
  left out: every reading of a region is an observation given to the model.  The
  updates of the status label and the progress bar (\<^verbatim>\<open>update_status\<close>) are left out
  of the effects.
\<close>

record ocr_config =
  hold_time :: seconds
  start_delay :: seconds
  between_delay :: seconds
  click_delay :: seconds
  shake_delay :: seconds
  key_hold_time :: seconds
  key1 :: string
  key2 :: string
  stop_key :: string
  max_value :: int
  recovery_point :: "(int \<times> int) option"

definition target_full :: "ocr_config \<Rightarrow> string" where
  "target_full cfg = py_str (max_value cfg) @ ''/'' @ py_str (max_value cfg)"

definition target_zero :: "ocr_config \<Rightarrow> string" where
  "target_zero cfg = ''0/'' @ py_str (max_value cfg)"

subsection \<open>RecoveryController\<close>

text \<open>
  \<^verbatim>\<open>perform_auto_recovery\<close>; \<open>stop_flag\<close> is the flag as read after the cursor has
  moved.  With the flag set the function returns there, before the nudge and the second
  tap.
\<close>

definition perform_auto_recovery :: "ocr_config \<Rightarrow> bool \<Rightarrow> action list" where
  "perform_auto_recovery cfg stop_flag =
     [Tap (KStr ''g''), Sleep (1 / 2)] @
     (case recovery_point cfg of
        None \<Rightarrow> [Sleep (3 / 2), Tap (KStr ''g'')]
      | Some (x, y) \<Rightarrow>
          MoveTo x y (1 / 2) #
          (if stop_flag then [] else [Sleep (1 / 2), Nudge, Sleep (3 / 2), Tap (KStr ''g'')]))"

subsection \<open>Stage 1: Filling\<close>

text \<open>
  What one pass through the loop of \<^verbatim>\<open>perform_click_and_hold_phase\<close> can read, in
  program order: the stop flag at the loop head, the screen before the click, the clock
  in the three-second test, the three confirmation readings, the stop flag after a
  confirmation, the stop flag inside the recovery, the screen in the zero test, the
  clock when a zero run starts, and the screen after the click.  A pass reads only the
  ones its path reaches.
\<close>

record fill_obs =
  f_stop :: bool
  f_full_before :: "recognition list"
  f_now :: seconds
  f_confirm1 :: "recognition list"
  f_confirm2 :: "recognition list"
  f_confirm3 :: "recognition list"
  f_stop_confirmed :: bool
  f_stop_recovery :: bool
  f_zero :: "recognition list"
  f_zero_time :: seconds
  f_full_after :: "recognition list"

text \<open>
  \<^verbatim>\<open>zero_stable_start and time.time() - zero_stable_start >= 3.0\<close>: a start of
  \<^verbatim>\<open>None\<close> or \<^verbatim>\<open>0.0\<close> is falsy.
\<close>

definition zero_due :: "seconds option \<Rightarrow> seconds \<Rightarrow> bool" where
  "zero_due zero_stable_start now =
     (case zero_stable_start of None \<Rightarrow> False | Some t \<Rightarrow> t \<noteq> 0 \<and> now - t \<ge> 3)"

text \<open>\<^verbatim>\<open>all(self._contains_ocr_text(target_zero, ...) for _ in range(3))\<close>\<close>

definition confirm :: "ocr_config \<Rightarrow> fill_obs \<Rightarrow> bool" where
  "confirm cfg ob =
     (contains_ocr_text (target_zero cfg) (f_confirm1 ob)
      \<and> contains_ocr_text (target_zero cfg) (f_confirm2 ob)
      \<and> contains_ocr_text (target_zero cfg) (f_confirm3 ob))"

text \<open>
  The result of the phase: the effects, then the returned triple
  \<^verbatim>\<open>(should_restart, first_time_run, recovery_fail_count)\<close>.
\<close>

type_synonym fill_result = "action list \<times> bool \<times> bool \<times> int"

text \<open>
  One pass through the loop body: it leaves the loop with the phase's result, or goes
  on with the new \<^verbatim>\<open>zero_stable_start\<close> and the effects of the pass.  Inside the loop
  \<^verbatim>\<open>first_time_run\<close> is always \<^verbatim>\<open>False\<close> (the phase clears it before the loop),
  and \<^verbatim>\<open>recovery_fail_count\<close> only changes on the way out.
\<close>

datatype fill_step = Leave fill_result | Again "seconds option" "action list"

definition fill_pass :: "ocr_config \<Rightarrow> seconds option \<Rightarrow> int \<Rightarrow> fill_obs \<Rightarrow> fill_step" where
  "fill_pass cfg zero_stable_start recovery_fail_count ob =
     (if f_stop ob then Leave ([], False, False, recovery_fail_count)
      else if contains_ocr_text (target_full cfg) (f_full_before ob)
      then Leave ([], False, False, recovery_fail_count)
      else if zero_due zero_stable_start (f_now ob) \<and> confirm cfg ob
      then (if f_stop_confirmed ob then Leave ([], False, False, recovery_fail_count)
            else let recovery = perform_auto_recovery cfg (f_stop_recovery ob) @ [WebhookAlert]
                 in if recovery_fail_count + 1 > 1
                    then Leave (recovery @ [KeyPress (KStr (key2 cfg)), Sleep (key_hold_time cfg / 2),
                                  KeyRelease (KStr (key2 cfg))], True, True, 0)
                    else Leave (recovery, True, True, recovery_fail_count + 1))
      else let after_test = (if zero_due zero_stable_start (f_now ob) then None else zero_stable_start);
               tracked = (if contains_ocr_text (target_zero cfg) (f_zero ob)
                          then (case after_test of None \<Rightarrow> Some (f_zero_time ob) | Some t \<Rightarrow> Some t)
                          else None);
               click = [MouseDown, Sleep (hold_time cfg), MouseUp, Sleep (between_delay cfg)]
           in if contains_ocr_text (target_full cfg) (f_full_after ob)
              then Leave (click, False, False, 0)
              else Again tracked click)"

text \<open>
  The loop.  It may run for ever (a gauge that never fills and never sticks), so the
  observations are its fuel: \<open>None\<close> when they run out before the loop is left.
\<close>

fun fill_loop :: "ocr_config \<Rightarrow> seconds option \<Rightarrow> int \<Rightarrow> fill_obs list \<Rightarrow> fill_result option" where
  "fill_loop cfg zero_stable_start recovery_fail_count [] = None"
| "fill_loop cfg zero_stable_start recovery_fail_count (ob # obs) =
     (case fill_pass cfg zero_stable_start recovery_fail_count ob of
        Leave r \<Rightarrow> Some r
      | Again tracked click \<Rightarrow>
          (case fill_loop cfg tracked recovery_fail_count obs of
             None \<Rightarrow> None
           | Some (tr, r) \<Rightarrow> Some (click @ tr, r)))"

definition perform_click_and_hold_phase ::
  "ocr_config \<Rightarrow> bool \<Rightarrow> int \<Rightarrow> fill_obs list \<Rightarrow> fill_result option" where
  "perform_click_and_hold_phase cfg first_time_run recovery_fail_count obs =
     (case fill_loop cfg None recovery_fail_count obs of
        None \<Rightarrow> None
      | Some (tr, r) \<Rightarrow> Some ((if first_time_run then [Sleep (start_delay cfg)] else []) @ tr, r))"

subsection \<open>Stage 2: the hold-wait of Destabilizing\<close>

text \<open>
  One pass of the loop of \<^verbatim>\<open>_wait_for_zero_or_full_during_hold\<close> reads the stop flag at
  the loop head and then the screen.  The loop is left by its condition (the stop
  flag) or by \<^verbatim>\<open>break\<close> (the third zero reading in a row).
\<close>

record hold_obs =
  h_stop :: bool
  h_screen :: "recognition list"

datatype loop_exit = Stopped | Broke

fun hold_wait_loop :: "string \<Rightarrow> nat \<Rightarrow> hold_obs list \<Rightarrow> (action list \<times> loop_exit) option" where
  "hold_wait_loop tz zero_count [] = None"
| "hold_wait_loop tz zero_count (ob # obs) =
     (if h_stop ob then Some ([], Stopped)
      else if contains_ocr_text tz (h_screen ob)
      then (if zero_count + 1 \<ge> 3 then Some ([MouseUp], Broke)
            else (case hold_wait_loop tz (zero_count + 1) obs of
                    None \<Rightarrow> None
                  | Some (tr, how) \<Rightarrow> Some (Sleep (3 / 10) # tr, how)))
      else (case hold_wait_loop tz 0 obs of
              None \<Rightarrow> None
            | Some (tr, how) \<Rightarrow> Some (Sleep (3 / 10) # tr, how)))"

definition after_hold_wait :: "ocr_config \<Rightarrow> action list" where
  "after_hold_wait cfg =
     [Sleep (shake_delay cfg), KeyPress (KStr (key2 cfg)),
      Sleep (key_hold_time cfg + 1 / 1000), KeyRelease (KStr (key2 cfg))]"

definition wait_for_zero_or_full_during_hold ::
  "ocr_config \<Rightarrow> string \<Rightarrow> string \<Rightarrow> hold_obs list \<Rightarrow> action list option" where
  "wait_for_zero_or_full_during_hold cfg tf tz obs =
     (case hold_wait_loop tz 0 obs of
        None \<Rightarrow> None
      | Some (tr, how) \<Rightarrow> Some (tr @ after_hold_wait cfg))"

subsection \<open>Stuck detection, in the words of the specification\<close>

text \<open>
  The zero template is matched by the zero-test reading of a pass.
\<close>

definition zero_seen :: "ocr_config \<Rightarrow> fill_obs \<Rightarrow> bool" where
  "zero_seen cfg ob = contains_ocr_text (target_zero cfg) (f_zero ob)"





subsection \<open>Stage 2: Destabilizing\<close>

text \<open>
  \<^verbatim>\<open>_is_ocr_bar_static\<close>.  The first reading gives \<^verbatim>\<open>stable_start\<close>; each pass of the
  loop then reads the clock, the stop flag and the screen.  The texts of a screen are
  cleaned and joined.
\<close>

record static_obs =
  s_time :: seconds
  s_stop :: bool
  s_screen :: "recognition list"

definition joined :: "recognition list \<Rightarrow> string" where
  "joined screen = concat (map cleaned (readtext_detail0 screen))"

fun static_loop ::
  "seconds \<Rightarrow> seconds \<Rightarrow> seconds \<Rightarrow> string option \<Rightarrow> static_obs list \<Rightarrow> (bool \<times> action list) option" where
  "static_loop check_time interval stable_start last_text [] = None"
| "static_loop check_time interval stable_start last_text (ob # obs) =
     (if s_time ob - stable_start < check_time
      then (if s_stop ob then Some (False, [])
            else if last_text \<noteq> None \<and> last_text \<noteq> Some (joined (s_screen ob)) then Some (False, [])
            else (case static_loop check_time interval stable_start (Some (joined (s_screen ob))) obs of
                    None \<Rightarrow> None
                  | Some (static, tr) \<Rightarrow> Some (static, Sleep interval # tr)))
      else Some (True, []))"

definition is_ocr_bar_static :: "seconds \<Rightarrow> seconds \<Rightarrow> static_obs list \<Rightarrow> (bool \<times> action list) option" where
  "is_ocr_bar_static check_time interval obs =
     (case obs of [] \<Rightarrow> None | ob # rest \<Rightarrow> static_loop check_time interval (s_time ob) None rest)"

text \<open>
  The loop of \<^verbatim>\<open>_execute_shake_sequence_until_bar_changes\<close>: each attempt reads the
  stop flag and then watches the bar for 3 seconds.
\<close>

record attempt_obs =
  a_stop :: bool
  a_static :: "static_obs list"

fun shake_attempts :: "ocr_config \<Rightarrow> bool \<Rightarrow> attempt_obs list \<Rightarrow> action list option" where
  "shake_attempts cfg first_attempt [] = None"
| "shake_attempts cfg first_attempt (ob # obs) =
     (if a_stop ob then Some []
      else (let hold = (if first_attempt then key_hold_time cfg else key_hold_time cfg / 2);
                shake = [KeyPress (KStr (key1 cfg)), Sleep hold, KeyRelease (KStr (key1 cfg)),
                         ClickHere, Sleep (click_delay cfg), MouseDown, Sleep (1 / 10)]
            in case is_ocr_bar_static 3 (1 / 2) (a_static ob) of
                 None \<Rightarrow> None
               | Some (static, watched) \<Rightarrow>
                   if static
                   then (case shake_attempts cfg False obs of
                           None \<Rightarrow> None
                         | Some later \<Rightarrow> Some (shake @ watched @ [MouseUp] @ later))
                   else Some (shake @ watched)))"

definition execute_shake_sequence_until_bar_changes ::
  "ocr_config \<Rightarrow> string \<Rightarrow> string \<Rightarrow> attempt_obs list \<Rightarrow> hold_obs list \<Rightarrow> action list option" where
  "execute_shake_sequence_until_bar_changes cfg tf tz attempts holds =
     (case shake_attempts cfg True attempts of
        None \<Rightarrow> None
      | Some tr \<Rightarrow>
          (case wait_for_zero_or_full_during_hold cfg tf tz holds of
             None \<Rightarrow> None
           | Some waited \<Rightarrow> Some (tr @ waited)))"

text \<open>\<^verbatim>\<open>perform_shake_phase\<close>: nothing at all when the stop flag is already set.\<close>

record shake_obs =
  sh_stop :: bool
  sh_attempts :: "attempt_obs list"
  sh_holds :: "hold_obs list"

definition perform_shake_phase :: "ocr_config \<Rightarrow> shake_obs \<Rightarrow> action list option" where
  "perform_shake_phase cfg ob =
     (if sh_stop ob then Some []
      else execute_shake_sequence_until_bar_changes cfg (target_full cfg) (target_zero cfg)
             (sh_attempts ob) (sh_holds ob))"

subsection \<open>The workflow loop\<close>

text \<open>
  What one pass of \<^verbatim>\<open>workflow_loop\<close> reads: the stop flag at the loop head, the
  readings of the three stages, and the repeat checkbox.  Stage 3 only starts the thread
  that runs \<^verbatim>\<open>detect_special_items\<close>.  The loop ends by removing the stop hotkey.
\<close>

record cycle_obs =
  w_stop :: bool
  w_fill :: "fill_obs list"
  w_shake :: shake_obs
  w_repeat :: bool

fun workflow_cycles :: "ocr_config \<Rightarrow> bool \<Rightarrow> int \<Rightarrow> cycle_obs list \<Rightarrow> action list option" where
  "workflow_cycles cfg first_time_run recovery_fail_count [] = None"
| "workflow_cycles cfg first_time_run recovery_fail_count (ob # obs) =
     (if w_stop ob then Some [RemoveHotkey]
      else (case perform_click_and_hold_phase cfg first_time_run recovery_fail_count (w_fill ob) of
              None \<Rightarrow> None
            | Some (filled, should_restart, first_time_run', recovery_fail_count') \<Rightarrow>
                if should_restart
                then (case workflow_cycles cfg first_time_run' recovery_fail_count' obs of
                        None \<Rightarrow> None
                      | Some later \<Rightarrow> Some (filled @ later))
                else (case perform_shake_phase cfg (w_shake ob) of
                        None \<Rightarrow> None
                      | Some shaken \<Rightarrow>
                          if \<not> w_repeat ob
                          then Some (filled @ shaken @ [StartItemScan, RemoveHotkey])
                          else (case workflow_cycles cfg first_time_run' recovery_fail_count' obs of
                                  None \<Rightarrow> None
                                | Some later \<Rightarrow> Some (filled @ shaken @ [StartItemScan] @ later)))))"

definition workflow_loop :: "ocr_config \<Rightarrow> cycle_obs list \<Rightarrow> action list option" where
  "workflow_loop cfg obs = workflow_cycles cfg True 0 obs"

section \<open>MacroAutomationTool: the visual-cue automation\<close>

text \<open>A region is the tuple \<^verbatim>\<open>(x, y, w, h)\<close> that \<^verbatim>\<open>get_region\<close> returns.\<close>

type_synonym region = "int \<times> int \<times> int \<times> int"

text \<open>
  The dictionary \<^verbatim>\<open>get_configuration\<close> builds: every key is present in it, so the
  defaults of the \<^verbatim>\<open>cfg.get\<close> calls are never used.
\<close>

record macro_config =
  bar_width_min :: rat
  bar_width_max :: rat
  bar_height_ratio :: rat
  threshold :: rat
  brightness_offset :: rat
  click_tolerance :: rat
  cooldown :: seconds
  move_interval :: seconds
  assist_click_delay :: seconds
  assist_key_delay :: seconds
  assist_key_hold :: seconds
  timed_press_interval :: seconds
  timed_press_duration :: seconds
  debug_view :: bool
  require_edge_touch :: bool
  assist_click_enabled :: bool
  assist_key_enabled :: bool
  assist_key :: string
  timed_press_enabled :: bool
  timed_press_direction :: string
  auto_sell_enabled :: bool
  auto_sell_interval :: int
  auto_sell_point :: "int \<times> int"

text \<open>
  The fields of the object that the modelled methods read or write.  \<open>config\<close> and
  \<open>threads\<close> are attributes that only \<^verbatim>\<open>start\<close> creates: \<open>None\<close> before the first
  start.  An event field is \<open>True\<close> when the event is set (the pause is open).
\<close>

record tool =
  running :: bool
  active :: bool
  edge_touched :: bool
  edge_armed :: bool
  last_click_coords :: string
  click_history :: "string list"
  force_keypress_interrupt :: bool
  global_pause_event :: bool
  partial_pause_event :: bool
  config :: "macro_config option"
  threads :: "loop list option"

text \<open>
  \<^verbatim>\<open>__init__\<close>.  The initial \<^verbatim>\<open>last_click_coords\<close> is an em dash, written here as
  its three UTF-8 bytes.
\<close>

definition new_tool :: tool where
  "new_tool =
     \<lparr>running = False, active = False, edge_touched = False, edge_armed = True,
      last_click_coords = [char_of (226 :: nat), char_of (128 :: nat), char_of (148 :: nat)],
      click_history = [],
      force_keypress_interrupt = False, global_pause_event = True, partial_pause_event = True,
      config = None, threads = None\<rparr>"

subsection \<open>Starting and stopping a session\<close>

datatype error = ConfigurationError

text \<open>
  \<^verbatim>\<open>start\<close>.  Its inputs are what it reads from the window: the region entries
  (\<open>None\<close> when \<^verbatim>\<open>get_region\<close> fails to parse them), the result of
  \<^verbatim>\<open>get_configuration\<close> (which raises on an entry that is not a number) and the
  auto-move checkbox.  The exception leaves \<^verbatim>\<open>start\<close> before any assignment.
\<close>

definition launched :: "macro_config \<Rightarrow> loop list" where
  "launched cfg =
     [DetectionLoop] @ (if debug_view cfg then [DebugWindow] else []) @
     [MovementLoop, AssistClick, AssistKey, PeriodicKey] @
     (if auto_sell_enabled cfg then [AutoSell] else [])"

definition start :: "region option \<Rightarrow> error + macro_config \<Rightarrow> bool \<Rightarrow> tool \<Rightarrow> error + tool" where
  "start region_entries configuration auto_move s =
     (if running s then Inr s
      else case region_entries of
             None \<Rightarrow> Inr s
           | Some region \<Rightarrow>
               (case configuration of
                  Inl e \<Rightarrow> Inl e
                | Inr cfg \<Rightarrow>
                    Inr (s\<lparr>config := Some cfg, running := True, active := auto_move,
                           threads := Some (launched cfg)\<rparr>)))"

text \<open>
  \<^verbatim>\<open>stop\<close>; \<open>alive\<close> tells which threads are still alive when asked.  Without a
  \<^verbatim>\<open>config\<close> attribute the last release raises \<^verbatim>\<open>AttributeError\<close>, which the
  method catches and prints.
\<close>

definition stop :: "(loop \<Rightarrow> bool) \<Rightarrow> tool \<Rightarrow> tool \<times> action list" where
  "stop alive s =
     (s\<lparr>running := False, active := False, force_keypress_interrupt := False,
        threads := map_option (\<lambda>ts. []) (threads s)\<rparr>,
      [SetSignal ForceInterrupt] @
      (case threads s of None \<Rightarrow> [] | Some ts \<Rightarrow> map (\<lambda>t. Join t 1) (filter alive ts)) @
      [ClearSignal ForceInterrupt,
       KeyRelease (KStr ''w''), KeyRelease KLeft, KeyRelease KRight] @
      (case config s of None \<Rightarrow> [] | Some cfg \<Rightarrow> [KeyRelease (KStr (assist_key cfg))]))"


subsection \<open>CueExtractor: one tick of the detection loop\<close>

text \<open>
  What OpenCV and NumPy compute from one captured frame, and the jitter
  \<^verbatim>\<open>random.uniform(-1, 1)\<close> drawn in the tick:
  the bounding rectangles of the contours of the thresholded frame, in the order
  \<^verbatim>\<open>findContours\<close> lists them, each with the mean of the frame difference over its
  rectangle (\<^verbatim>\<open>motion_level\<close>, read only when there is a previous frame), and the column
  means of the blurred centre band (\<^verbatim>\<open>mean_col\<close>, one per column of the frame).
\<close>

record contour =
  c_x :: int
  c_y :: int
  c_w :: int
  c_h :: int
  c_motion :: rat

record frame =
  fr_contours :: "contour list"
  fr_mean_col :: "rat list"
  fr_jitter :: rat

text \<open>The loop over the contours: the first one of the right size that moved.\<close>

fun find_bar_box :: "macro_config \<Rightarrow> int \<Rightarrow> int \<Rightarrow> bool \<Rightarrow> contour list \<Rightarrow> (int \<times> int) option" where
  "find_bar_box cfg x bar_height_min has_prev [] = None"
| "find_bar_box cfg x bar_height_min has_prev (c # cs) =
     (if bar_width_min cfg \<le> of_int (c_w c) \<and> of_int (c_w c) \<le> bar_width_max cfg
         \<and> c_h c \<ge> bar_height_min
      then (if has_prev \<and> c_motion c < 10
            then find_bar_box cfg x bar_height_min has_prev cs
            else Some (x + c_x c, x + c_x c + c_w c))
      else find_bar_box cfg x bar_height_min has_prev cs)"

definition np_mean :: "rat list \<Rightarrow> rat" where
  "np_mean xs = sum_list xs / of_nat (length xs)"

text \<open>\<^verbatim>\<open>np.where(mean_col > mean_val + cfg['brightness_offset'])[0]\<close>\<close>

definition bright_indices :: "macro_config \<Rightarrow> rat list \<Rightarrow> nat list" where
  "bright_indices cfg mean_col =
     (let mean_val = np_mean mean_col
      in filter (\<lambda>i. mean_col ! i > mean_val + brightness_offset cfg) [0..<length mean_col])"

definition target_x :: "macro_config \<Rightarrow> int \<Rightarrow> frame \<Rightarrow> rat option" where
  "target_x cfg x fr =
     (let bright = bright_indices cfg (fr_mean_col fr)
      in if length bright > 10
         then Some (of_int x + (of_nat (hd bright) + of_nat (last bright)) / 2 + fr_jitter fr)
         else None)"

text \<open>The marker box and the target of a tick, when the tick has both.\<close>

definition cue :: "macro_config \<Rightarrow> region \<Rightarrow> bool \<Rightarrow> frame \<Rightarrow> ((int \<times> int) \<times> rat) option" where
  "cue cfg region has_prev fr =
     (case region of (x, y, w, h) \<Rightarrow>
        (case find_bar_box cfg x (py_int (of_int h * bar_height_ratio cfg)) has_prev (fr_contours fr) of
           None \<Rightarrow> None
         | Some bar_box \<Rightarrow>
             (case target_x cfg x fr of None \<Rightarrow> None | Some t \<Rightarrow> Some (bar_box, t))))"

text \<open>
  The edge test: the box's left edge within 30 pixels of the left margin line, or its
  right edge within 30 pixels of the right one.
\<close>

definition edge_near :: "region \<Rightarrow> int \<times> int \<Rightarrow> bool" where
  "edge_near region bar_box =
     (case region of (x, y, w, h) \<Rightarrow>
        (case bar_box of (bar_left, bar_right) \<Rightarrow>
           (let margin = py_int (of_int w * (1 / 10));
                left_marker = x + margin;
                right_marker = x + w - margin;
                tolerance = 30
            in \<bar>bar_left - left_marker\<bar> \<le> tolerance \<or> \<bar>bar_right - right_marker\<bar> \<le> tolerance)))"

definition latch_fires :: "macro_config \<Rightarrow> region \<Rightarrow> bool \<Rightarrow> frame \<Rightarrow> tool \<Rightarrow> bool" where
  "latch_fires cfg region has_prev fr s =
     (case cue cfg region has_prev fr of
        None \<Rightarrow> False
      | Some (bar_box, t) \<Rightarrow> edge_near region bar_box \<and> edge_armed s)"

text \<open>\<^verbatim>\<open>f"({int(target_x)}, {int(y + h / 2)})"\<close>\<close>

definition click_coord :: "rat \<Rightarrow> rat \<Rightarrow> string" where
  "click_coord cx cy = ''('' @ py_str (py_int cx) @ '', '' @ py_str (py_int cy) @ '')''"

text \<open>\<^verbatim>\<open>insert(0, click_coord)\<close>, then \<^verbatim>\<open>pop()\<close> when more than 15 are held.\<close>

definition push_history :: "string \<Rightarrow> string list \<Rightarrow> string list" where
  "push_history c history =
     (let inserted = c # history in if length inserted > 15 then butlast inserted else inserted)"

text \<open>
  One pass through the body of \<^verbatim>\<open>detection_and_click_loop\<close>, after the wait on the
  global pause.  The status window and the debug view are left out.
\<close>

definition detection_tick :: "macro_config \<Rightarrow> region \<Rightarrow> bool \<Rightarrow> frame \<Rightarrow> tool \<Rightarrow> tool \<times> action list" where
  "detection_tick cfg region has_prev fr s =
     (case region of (x, y, w, h) \<Rightarrow>
        (case cue cfg region has_prev fr of
           None \<Rightarrow> (s, [Sleep (1 / 200)])
         | Some ((bar_left, bar_right), t) \<Rightarrow>
             (let s1 = (if latch_fires cfg region has_prev fr s
                        then s\<lparr>edge_touched := True, edge_armed := False\<rparr> else s);
                  edge_condition = (if require_edge_touch cfg then edge_touched s1 else True)
              in if edge_condition \<and> of_int bar_left - click_tolerance cfg \<le> t
                    \<and> t \<le> of_int bar_right + click_tolerance cfg
                 then (s1\<lparr>edge_touched := False, edge_armed := True,
                          last_click_coords := click_coord t (of_int y + of_int h / 2),
                          click_history :=
                            push_history (click_coord t (of_int y + of_int h / 2)) (click_history s1)\<rparr>,
                       [Click t (of_int y + of_int h / 2), Sleep (cooldown cfg), Sleep (1 / 200)])
                 else (s1, [Sleep (1 / 200)]))))"

text \<open>The coordinates of the clicks among some effects, as the history words them.\<close>

fun clicked :: "action list \<Rightarrow> string list" where
  "clicked [] = []"
| "clicked (Click cx cy # as) = click_coord cx cy # clicked as"
| "clicked (a # as) = clicked as"

subsection \<open>The detection loop\<close>

text \<open>
  What the loop sees each time it is scheduled: the running flag, whether the global
  pause is open, and the frame it would capture.  \<open>waiting\<close> says that the loop is
  inside \<^verbatim>\<open>global_pause_event.wait()\<close>: it stays there, doing nothing, while the pause
  is closed, and does not look at the running flag again before its next pass.  The
  result is the object, the effects so far, and whether the loop has ended.
\<close>

record detect_obs =
  d_running :: bool
  d_pause_open :: bool
  d_frame :: frame

fun detection_loop ::
  "macro_config \<Rightarrow> region \<Rightarrow> bool \<Rightarrow> bool \<Rightarrow> tool \<Rightarrow> detect_obs list \<Rightarrow> tool \<times> action list \<times> bool" where
  "detection_loop cfg region has_prev waiting s [] = (s, [], False)"
| "detection_loop cfg region has_prev waiting s (ob # obs) =
     (if \<not> waiting \<and> \<not> d_running ob then (s, [], True)
      else if \<not> d_pause_open ob then detection_loop cfg region has_prev True s obs
      else (case detection_tick cfg region has_prev (d_frame ob) s of
              (s', acts) \<Rightarrow>
                (case detection_loop cfg region True False s' obs of
                   (s'', tr, ended) \<Rightarrow> (s'', acts @ tr, ended))))"

definition detection_and_click_loop ::
  "macro_config \<Rightarrow> region \<Rightarrow> tool \<Rightarrow> detect_obs list \<Rightarrow> tool \<times> action list \<times> bool" where
  "detection_and_click_loop cfg region s obs = detection_loop cfg region False False s obs"

text \<open>
  The latch firings and the clicks over consecutive ticks (passes of the loop in which
  a frame is captured).
\<close>

fun latch_firings :: "macro_config \<Rightarrow> region \<Rightarrow> bool \<Rightarrow> frame list \<Rightarrow> tool \<Rightarrow> nat" where
  "latch_firings cfg region has_prev [] s = 0"
| "latch_firings cfg region has_prev (fr # frs) s =
     (if latch_fires cfg region has_prev fr s then 1 else 0)
     + latch_firings cfg region True frs (fst (detection_tick cfg region has_prev fr s))"

fun clicks_dispatched :: "macro_config \<Rightarrow> region \<Rightarrow> bool \<Rightarrow> frame list \<Rightarrow> tool \<Rightarrow> nat" where
  "clicks_dispatched cfg region has_prev [] s = 0"
| "clicks_dispatched cfg region has_prev (fr # frs) s =
     length (clicked (snd (detection_tick cfg region has_prev fr s)))
     + clicks_dispatched cfg region True frs (fst (detection_tick cfg region has_prev fr s))"

text \<open>A tick is in the edge-touch condition when its marker box passes the edge test.\<close>

definition edge_touch_condition :: "macro_config \<Rightarrow> region \<Rightarrow> bool \<Rightarrow> frame \<Rightarrow> bool" where
  "edge_touch_condition cfg region has_prev fr =
     (case cue cfg region has_prev fr of None \<Rightarrow> False | Some (bar_box, t) \<Rightarrow> edge_near region bar_box)"

subsection \<open>ActionScheduler: the movement loop\<close>

text \<open>
  What a loop reads of the shared state and of the screen at one evaluation of a loop
  condition: the flags \<^verbatim>\<open>running\<close> and \<^verbatim>\<open>active\<close>, the two pause events (\<open>True\<close>
  when open), what \<^verbatim>\<open>is_event_active\<close> would return, and the clock.  Every loop
  below consumes one such reading per evaluation of a loop condition and returns
  \<open>None\<close> when the readings run out before it ends.
\<close>

record env =
  e_running :: bool
  e_active :: bool
  e_global_open :: bool
  e_partial_open :: bool
  e_event :: bool
  e_time :: seconds

text \<open>\<^verbatim>\<open>pyautogui.click(x + w // 2, y + h // 2)\<close>\<close>

definition centre_click :: "region \<Rightarrow> action" where
  "centre_click region =
     (case region of (x, y, w, h) \<Rightarrow> Click (of_int (x + w div 2)) (of_int (y + h div 2)))"

text \<open>
  \<^verbatim>\<open>while self.running and not self.is_event_active(region)\<close>: click and sleep.
  The result is the effects and the readings left.
\<close>

fun click_until_event :: "macro_config \<Rightarrow> region \<Rightarrow> env list \<Rightarrow> (action list \<times> env list) option" where
  "click_until_event cfg region [] = None"
| "click_until_event cfg region (e # es) =
     (if e_running e \<and> \<not> e_event e
      then (case click_until_event cfg region es of
              None \<Rightarrow> None
            | Some (tr, rest) \<Rightarrow> Some (centre_click region # Sleep (cooldown cfg) # tr, rest))
      else Some ([], es))"

text \<open>\<^verbatim>\<open>while self.running and self.is_event_active(region): time.sleep(0.1)\<close>\<close>

fun wait_event_over :: "env list \<Rightarrow> (action list \<times> env list) option" where
  "wait_event_over [] = None"
| "wait_event_over (e # es) =
     (if e_running e \<and> e_event e
      then (case wait_event_over es of
              None \<Rightarrow> None
            | Some (tr, rest) \<Rightarrow> Some (Sleep (1 / 10) # tr, rest))
      else Some ([], es))"

text \<open>
  \<^verbatim>\<open>while self.running and time.time() - start_time < move_interval\<close>: leave on
  an active event, else click and sleep.
\<close>

fun hold_for_interval ::
  "macro_config \<Rightarrow> region \<Rightarrow> seconds \<Rightarrow> env list \<Rightarrow> (action list \<times> env list) option" where
  "hold_for_interval cfg region start_time [] = None"
| "hold_for_interval cfg region start_time (e # es) =
     (if e_running e \<and> e_time e - start_time < move_interval cfg
      then (if e_event e then Some ([], es)
            else (case hold_for_interval cfg region start_time es of
                    None \<Rightarrow> None
                  | Some (tr, rest) \<Rightarrow> Some (centre_click region # Sleep (cooldown cfg) # tr, rest)))
      else Some ([], es))"

datatype phase = Start | PostEvent

definition flip :: "key \<Rightarrow> key" where
  "flip direction = (if direction = KRight then KLeft else KRight)"

lemma click_until_event_shorter:
  "click_until_event cfg region es = Some (tr, rest) \<Longrightarrow> length rest < length es"
  by (induction es arbitrary: tr) (auto split: if_splits option.splits)

lemma wait_event_over_shorter:
  "wait_event_over es = Some (tr, rest) \<Longrightarrow> length rest < length es"
  by (induction es arbitrary: tr) (auto split: if_splits option.splits)

lemma hold_for_interval_shorter:
  "hold_for_interval cfg region start_time es = Some (tr, rest) \<Longrightarrow> length rest < length es"
  by (induction es arbitrary: tr) (auto split: if_splits option.splits)

text \<open>
  The outer loop of \<^verbatim>\<open>movement_click_loop\<close>.  The head of the readings serves the
  loop condition, \<^verbatim>\<open>in_event\<close> and \<^verbatim>\<open>self.active\<close>; in the post-event phase one more
  reading gives \<^verbatim>\<open>start_time\<close>.  The loop never reads either pause event.
\<close>

function movement_loop :: "macro_config \<Rightarrow> region \<Rightarrow> key \<Rightarrow> phase \<Rightarrow> env list \<Rightarrow> action list option" where
  "movement_loop cfg region direction phase [] = None"
| "movement_loop cfg region direction phase (e # es) =
     (if \<not> e_running e then Some []
      else if e_active e \<and> phase = Start \<and> \<not> e_event e
      then (case click_until_event cfg region es of
              None \<Rightarrow> None
            | Some (tr, rest) \<Rightarrow>
                (case movement_loop cfg region direction PostEvent rest of
                   None \<Rightarrow> None
                 | Some later \<Rightarrow>
                     Some ([KeyPress (KStr ''w''), KeyPress direction] @ tr @
                           [KeyRelease (KStr ''w''), KeyRelease direction, Sleep (cooldown cfg)] @ later)))
      else if e_active e \<and> phase = PostEvent
      then (case wait_event_over es of
              None \<Rightarrow> None
            | Some (waited, rest) \<Rightarrow>
                (case rest of
                   [] \<Rightarrow> None
                 | e1 # rest1 \<Rightarrow>
                     (case hold_for_interval cfg region (e_time e1) rest1 of
                        None \<Rightarrow> None
                      | Some (tr, rest2) \<Rightarrow>
                          (case movement_loop cfg region (flip direction) Start rest2 of
                             None \<Rightarrow> None
                           | Some later \<Rightarrow>
                               Some (waited @ [KeyPress (KStr ''w''), KeyPress (flip direction)] @ tr @
                                     [KeyRelease (KStr ''w''), KeyRelease (flip direction),
                                      Sleep (cooldown cfg)] @ later)))))
      else (case movement_loop cfg region direction phase es of
              None \<Rightarrow> None
            | Some later \<Rightarrow> Some (Sleep (cooldown cfg) # later)))"
  by pat_completeness auto
termination
proof (relation "measure (\<lambda>(cfg, region, direction, phase, es). length es)")
  show "wf (measure (\<lambda>(cfg, region, direction, phase, es). length es))" by simp
next
  fix cfg region direction phase e es x2 tr rest
  assume "click_until_event cfg region es = Some x2" and "(tr, rest) = x2"
  then have "length rest < length es" by (auto dest: click_until_event_shorter)
  then show "((cfg, region, direction, PostEvent, rest), (cfg, region, direction, phase, e # es))
      \<in> measure (\<lambda>(cfg, region, direction, phase, es). length es)" by simp
next
  fix cfg region direction phase e es x2 waited rest e1 rest1 x2a tr rest2
  assume "wait_event_over es = Some x2" and "(waited, rest) = x2" and "rest = e1 # rest1"
    and "hold_for_interval cfg region (e_time e1) rest1 = Some x2a" and "(tr, rest2) = x2a"
  then have "length rest < length es" and "length rest2 < length rest1"
    by (auto dest: wait_event_over_shorter hold_for_interval_shorter)
  with \<open>rest = e1 # rest1\<close>
  show "((cfg, region, flip direction, Start, rest2), (cfg, region, direction, phase, e # es))
      \<in> measure (\<lambda>(cfg, region, direction, phase, es). length es)" by simp
next
  fix cfg region direction phase e es
  show "((cfg, region, direction, phase, es), (cfg, region, direction, phase, e # es))
      \<in> measure (\<lambda>(cfg, region, direction, phase, es). length es)" by simp
qed

definition movement_click_loop :: "macro_config \<Rightarrow> region \<Rightarrow> env list \<Rightarrow> action list option" where
  "movement_click_loop cfg region obs = movement_loop cfg region KRight Start obs"

subsection \<open>ActionScheduler: the periodic-key loop\<close>





text \<open>The same reading with other values of the two pause events.\<close>

definition with_pauses :: "bool \<Rightarrow> bool \<Rightarrow> env \<Rightarrow> env" where
  "with_pauses g p e = e\<lparr>e_global_open := g, e_partial_open := p\<rparr>"

section \<open>Example inputs\<close>

definition demo_ocr_config :: ocr_config where
  "demo_ocr_config =
     \<lparr>hold_time = 1 / 2, start_delay = 3, between_delay = 1 / 5, click_delay = 1 / 10,
      shake_delay = 1 / 2, key_hold_time = 1, key1 = ''e'', key2 = ''q'', stop_key = ''f8'',
      max_value = 50, recovery_point = Some (400, 300)\<rparr>"

definition reading :: "string \<Rightarrow> recognition list" where
  "reading t = [\<lparr>r_text = t, r_conf = 9 / 10\<rparr>]"

definition quiet_pass :: "string \<Rightarrow> seconds \<Rightarrow> fill_obs" where
  "quiet_pass t now =
     \<lparr>f_stop = False, f_full_before = reading t, f_now = now,
      f_confirm1 = reading t, f_confirm2 = reading t, f_confirm3 = reading t,
      f_stop_confirmed = False, f_stop_recovery = False,
      f_zero = reading t, f_zero_time = now, f_full_after = reading t\<rparr>"


definition default_config :: macro_config where
  "default_config =
     \<lparr>bar_width_min = 3, bar_width_max = 15, bar_height_ratio = 7 / 10, threshold = 50,
      brightness_offset = 10, click_tolerance = 30, cooldown = 1 / 20, move_interval = 4 / 5,
      assist_click_delay = 1 / 2, assist_key_delay = 1 / 2, assist_key_hold = 3 / 10,
      timed_press_interval = 60, timed_press_duration = 1,
      debug_view = True, require_edge_touch = True, assist_click_enabled = False,
      assist_key_enabled = False, assist_key = ''f'', timed_press_enabled = False,
      timed_press_direction = ''right'', auto_sell_enabled = True, auto_sell_interval = 600,
      auto_sell_point = (500, 500)\<rparr>"

definition demo_region :: region where
  "demo_region = (519, 838, 100, 70)"

definition demo_frame :: "int \<Rightarrow> nat \<Rightarrow> rat \<Rightarrow> frame" where
  "demo_frame bar_x band_start jitter =
     \<lparr>fr_contours = [\<lparr>c_x = bar_x, c_y = 5, c_w = 8, c_h = 55, c_motion = 20\<rparr>],
      fr_mean_col = replicate band_start 0 @ replicate 11 100 @ replicate (89 - band_start) 0,
      fr_jitter = jitter\<rparr>"

definition paused :: env where
  "paused = \<lparr>e_running = True, e_active = True, e_global_open = False, e_partial_open = False,
             e_event = False, e_time = 0\<rparr>"


definition tick_at :: "frame \<Rightarrow> detect_obs" where
  "tick_at fr = \<lparr>d_running = True, d_pause_open = True, d_frame = fr\<rparr>"

text \<open>
  Three frames of the example region: the marker box at the left margin line with the
  bright band on it, the box at the margin line with the band far away, and the box in
  the middle of the region with the band on it.
\<close>

definition frame_at_edge :: "rat \<Rightarrow> frame" where
  "frame_at_edge jitter = demo_frame 10 9 jitter"

definition frame_edge_band_away :: frame where
  "frame_edge_band_away = demo_frame 10 70 0"

definition frame_mid :: frame where
  "frame_mid = demo_frame 45 40 0"
section \<open>Properties of the TextCueMatcher\<close>

lemma contains_loop_iff: "contains_loop target ts \<longleftrightarrow> (\<exists>t \<in> set ts. cleaned t = target)"
  by (induction ts) auto

lemma keyword_loop_iff:
  "keyword_loop pr c kws \<longleftrightarrow> (\<exists>kw \<in> set kws. pr c kw \<ge> 75)"
  by (induction kws) auto

lemma results_loop_iff:
  "results_loop pr rs \<noteq> None \<longleftrightarrow>
     (\<exists>r \<in> set rs. r_conf r > 1 / 2 \<and> keyword_loop pr (strip (lower (r_text r))) item_keywords
        \<and> r_text r \<noteq> [])"
  by (induction rs) auto

text \<open>
  C6, as stated, fails on the counter templates: \<^verbatim>\<open>_contains_ocr_text\<close> reads with
  \<^verbatim>\<open>detail=0\<close> and never sees a confidence.  A recognition of confidence 0.3 is
  matched.
\<close>

theorem counter_match_ignores_confidence:
  "contains_ocr_text ''0/50'' [\<lparr>r_text = ''O / 50 '', r_conf = 3 / 10\<rparr>]
   \<and> \<not> (r_conf \<lparr>r_text = ''O / 50 '', r_conf = 3 / 10\<rparr> > 1 / 2)"
  by code_simp

text \<open>
  C6, amended.  A counter template matches exactly when some recognised text, of any
  confidence, equals the target after stripping, removing spaces and turning the
  letter O into the digit zero.  An item-keyword scan finds a match exactly when some
  recognition of confidence above 0.5 and non-empty text, lower-cased and stripped (no
  other normalisation), scores at least 75 against one of the keywords.
\<close>

theorem text_cue_matching:
  "(contains_ocr_text target screen \<longleftrightarrow>
      (\<exists>r \<in> set screen. letter_O_to_zero (remove_spaces (strip (r_text r))) = target))
   \<and> (fst (detect_special_items pr True screen) \<noteq> None \<longleftrightarrow>
      (\<exists>r \<in> set screen. r_conf r > 1 / 2 \<and>
         (\<exists>kw \<in> set item_keywords. pr (strip (lower (r_text r))) kw \<ge> 75) \<and> r_text r \<noteq> []))"
proof -
  have counter: "contains_ocr_text target screen \<longleftrightarrow>
      (\<exists>r \<in> set screen. letter_O_to_zero (remove_spaces (strip (r_text r))) = target)"
    by (simp add: contains_ocr_text_def readtext_detail0_def contains_loop_iff cleaned_def)
  have "fst (detect_special_items pr True screen) \<noteq> None \<longleftrightarrow> results_loop pr screen \<noteq> None"
    by (simp add: detect_special_items_def split: option.splits)
  then have item: "fst (detect_special_items pr True screen) \<noteq> None \<longleftrightarrow>
      (\<exists>r \<in> set screen. r_conf r > 1 / 2 \<and>
         (\<exists>kw \<in> set item_keywords. pr (strip (lower (r_text r))) kw \<ge> 75) \<and> r_text r \<noteq> [])"
    by (simp only: results_loop_iff keyword_loop_iff)
  from counter item show ?thesis by (rule conjI)
qed

theorem text_cue_matching_witness:
  "contains_ocr_text ''50/50'' [\<lparr>r_text = '' 5O/5O'', r_conf = 1 / 10\<rparr>]
   \<and> fst (detect_special_items (\<lambda>a b. if a = b then 100 else 0) True
        [\<lparr>r_text = ''Exotic '', r_conf = 9 / 10\<rparr>]) \<noteq> None
   \<and> fst (detect_special_items (\<lambda>a b. if a = b then 100 else 0) True
        [\<lparr>r_text = ''Exotic '', r_conf = 1 / 2\<rparr>]) = None"
proof -
  let ?pr = "\<lambda>a b :: string. if a = b then 100 else (0 :: rat)"
  have counter: "\<exists>r \<in> set [\<lparr>r_text = '' 5O/5O'', r_conf = 1 / 10\<rparr>].
      letter_O_to_zero (remove_spaces (strip (r_text r))) = ''50/50''"
    by code_simp
  have sure: "\<exists>r \<in> set [\<lparr>r_text = ''Exotic '', r_conf = 9 / 10\<rparr>]. r_conf r > 1 / 2 \<and>
      (\<exists>kw \<in> set item_keywords. ?pr (strip (lower (r_text r))) kw \<ge> 75) \<and> r_text r \<noteq> []"
    by code_simp
  have unsure: "\<not> (\<exists>r \<in> set [\<lparr>r_text = ''Exotic '', r_conf = 1 / 2\<rparr>]. r_conf r > 1 / 2 \<and>
      (\<exists>kw \<in> set item_keywords. ?pr (strip (lower (r_text r))) kw \<ge> 75) \<and> r_text r \<noteq> [])"
    by code_simp
  from counter sure unsure
    text_cue_matching [of "''50/50''" "[\<lparr>r_text = '' 5O/5O'', r_conf = 1 / 10\<rparr>]" ?pr]
    text_cue_matching [of "''50/50''" "[\<lparr>r_text = ''Exotic '', r_conf = 9 / 10\<rparr>]" ?pr]
    text_cue_matching [of "''50/50''" "[\<lparr>r_text = ''Exotic '', r_conf = 1 / 2\<rparr>]" ?pr]
  show ?thesis by blast
qed

section \<open>Properties of the Filling stage\<close>

text \<open>
  For the proofs: while the loop runs, a tracked start is the clock reading taken at
  some earlier pass, and the zero test has matched at every pass since.
\<close>

definition tracked_ok :: "ocr_config \<Rightarrow> fill_obs list \<Rightarrow> seconds option \<Rightarrow> bool" where
  "tracked_ok cfg pre zss =
     (case zss of
        None \<Rightarrow> True
      | Some t \<Rightarrow> \<exists>j < length pre. t = f_zero_time (pre ! j)
                   \<and> (\<forall>i \<in> {j..<length pre}. zero_seen cfg (pre ! i)))"









lemma tracked_ok_None [simp]: "tracked_ok cfg pre None"
  by (simp add: tracked_ok_def)





















text \<open>
  The same recovery inside the workflow loop, with the stop requested during the
  startup delay that follows it: the loop goes back to Filling, sleeps the delay, and
  ends.
\<close>

lemma workflow_restarts_with_delay:
  "workflow_cycles demo_ocr_config False 1
     [\<lparr>w_stop = False, w_fill = [quiet_pass ''0/50'' 100, quiet_pass ''0/50'' 103],
       w_shake = \<lparr>sh_stop = True, sh_attempts = [], sh_holds = []\<rparr>, w_repeat = True\<rparr>,
      \<lparr>w_stop = False, w_fill = [(quiet_pass ''0/50'' 110)\<lparr>f_stop := True\<rparr>],
       w_shake = \<lparr>sh_stop = True, sh_attempts = [], sh_holds = []\<rparr>, w_repeat = False\<rparr>]
   = Some ([MouseDown, Sleep (1 / 2), MouseUp, Sleep (1 / 5),
            Tap (KStr ''g''), Sleep (1 / 2), MoveTo 400 300 (1 / 2), Sleep (1 / 2), Nudge,
            Sleep (3 / 2), Tap (KStr ''g''), WebhookAlert,
            KeyPress (KStr ''q''), Sleep (1 / 2), KeyRelease (KStr ''q''),
            Sleep 3, StartItemScan, RemoveHotkey])"
  by code_simp

text \<open>
  C3.  The counter is reset where the gauge is read full after a click, but not where
  it is read full before the click at the top of a pass: entered with a counter of 1,
  the phase leaves through that exit with the counter still 1.
\<close>

theorem full_before_click_keeps_count:
  "perform_click_and_hold_phase demo_ocr_config True 1 [quiet_pass ''50/50'' 10]
     = Some ([Sleep 3], False, False, 1)
   \<and> perform_click_and_hold_phase demo_ocr_config True 1
       [(quiet_pass ''17/50'' 10)\<lparr>f_full_after := reading ''50/50''\<rparr>]
     = Some ([Sleep 3, MouseDown, Sleep (1 / 2), MouseUp, Sleep (1 / 5)], False, False, 0)"
  by code_simp

text \<open>A zero reading that is gone at the next pass triggers nothing.\<close>

lemma transient_zero_no_recovery:
  "perform_click_and_hold_phase demo_ocr_config False 0
     [quiet_pass ''0/50'' 100, quiet_pass ''1/50'' (201 / 2), quiet_pass ''2/50'' 104,
      quiet_pass ''50/50'' 105]
   = Some ([MouseDown, Sleep (1 / 2), MouseUp, Sleep (1 / 5),
            MouseDown, Sleep (1 / 2), MouseUp, Sleep (1 / 5),
            MouseDown, Sleep (1 / 2), MouseUp, Sleep (1 / 5)], False, False, 0)"
  by code_simp


section \<open>Properties of the hold-wait\<close>



lemma hold_wait_loop_returns:
  "\<exists>ob \<in> set obs. h_stop ob \<Longrightarrow> \<exists>r. hold_wait_loop tz zc obs = Some r"
proof (induction obs arbitrary: zc)
  case Nil
  then show ?case by simp
next
  case (Cons ob obs)
  show ?case
  proof (cases "h_stop ob")
    case True
    then show ?thesis by simp
  next
    case False
    with Cons.prems have "\<exists>ob \<in> set obs. h_stop ob" by simp
    from Cons.IH [OF this] obtain r1 r0
      where "hold_wait_loop tz (zc + 1) obs = Some r1" and "hold_wait_loop tz 0 obs = Some r0"
      by blast
    with False show ?thesis
      by (cases r1; cases r0) simp
  qed
qed



section \<open>The example frames, evaluated\<close>

lemma py_int_numeral: "py_int (numeral n) = numeral n"
  by (simp add: py_int_def)


lemma target_at_edge0: "target_x default_config 519 (frame_at_edge 0) = Some 533"
  by code_simp

lemma target_at_edge1: "target_x default_config 519 (frame_at_edge 1) = Some 534"
  by code_simp

lemma target_band_away: "target_x default_config 519 frame_edge_band_away = Some 594"
  by code_simp

lemma target_mid: "target_x default_config 519 frame_mid = Some 564"
  by code_simp


lemma bar_at_edge: "find_bar_box default_config 519 49 hp (fr_contours (frame_at_edge j)) = Some (529, 537)"
  by (simp add: frame_at_edge_def demo_frame_def default_config_def)

lemma bar_band_away: "find_bar_box default_config 519 49 hp (fr_contours frame_edge_band_away) = Some (529, 537)"
  by (simp add: frame_edge_band_away_def demo_frame_def default_config_def)

lemma bar_mid: "find_bar_box default_config 519 49 hp (fr_contours frame_mid) = Some (564, 572)"
  by (simp add: frame_mid_def demo_frame_def default_config_def)


lemma ratio_demo: "bar_height_ratio default_config = 7 / 10"
  by (simp add: default_config_def)


lemma cue_at_edge0: "cue default_config demo_region hp (frame_at_edge 0) = Some ((529, 537), 533)"
  by (simp add: cue_def demo_region_def ratio_demo py_int_numeral bar_at_edge target_at_edge0)

lemma cue_at_edge1: "cue default_config demo_region hp (frame_at_edge 1) = Some ((529, 537), 534)"
  by (simp add: cue_def demo_region_def ratio_demo py_int_numeral bar_at_edge target_at_edge1)

lemma cue_band_away: "cue default_config demo_region hp frame_edge_band_away = Some ((529, 537), 594)"
  by (simp add: cue_def demo_region_def ratio_demo py_int_numeral bar_band_away target_band_away)

lemma cue_mid: "cue default_config demo_region hp frame_mid = Some ((564, 572), 564)"
  by (simp add: cue_def demo_region_def ratio_demo py_int_numeral bar_mid target_mid)

lemma near_edge: "edge_near demo_region (529, 537)"
  by (simp add: edge_near_def demo_region_def py_int_numeral Let_def)

lemma not_near_mid: "\<not> edge_near demo_region (564, 572)"
  by (simp add: edge_near_def demo_region_def py_int_numeral Let_def)

lemma coord_533: "click_coord 533 873 = ''(533, 873)''"
  by (simp add: click_coord_def py_str_def py_int_def digits.simps char_of_def bit_iff_odd)

lemma coord_534: "click_coord 534 873 = ''(534, 873)''"
  by (simp add: click_coord_def py_str_def py_int_def digits.simps char_of_def bit_iff_odd)

lemma coord_564: "click_coord 564 873 = ''(564, 873)''"
  by (simp add: click_coord_def py_str_def py_int_def digits.simps char_of_def bit_iff_odd)


lemmas demo_cues = cue_at_edge0 cue_at_edge1 cue_band_away cue_mid near_edge not_near_mid
  coord_533 coord_534 coord_564

lemma demo_centre: "(838 :: rat) + 70 / 2 = 873"
  by simp

section \<open>Properties of the CueExtractor\<close>

subsection \<open>The target lies inside the region\<close>

lemma strictly_increasing_span:
  fixes xs :: "nat list"
  shows "sorted_wrt (<) xs \<Longrightarrow> xs \<noteq> [] \<Longrightarrow> hd xs + (length xs - 1) \<le> last xs"
proof (induction xs)
  case Nil
  then show ?case by simp
next
  case (Cons a xs)
  show ?case
  proof (cases xs)
    case Nil
    then show ?thesis by simp
  next
    case (Cons b ys)
    with Cons.prems have "a < hd xs" "sorted_wrt (<) xs" "xs \<noteq> []" by auto
    with Cons.IH have "a + 1 + (length xs - 1) \<le> last xs" by simp
    with \<open>xs \<noteq> []\<close> show ?thesis by simp
  qed
qed

lemma bright_indices_sorted: "sorted_wrt (<) (bright_indices cfg mc)"
  unfolding bright_indices_def Let_def by (rule sorted_wrt_filter) (rule sorted_wrt_upt)

lemma bright_indices_bound: "i \<in> set (bright_indices cfg mc) \<Longrightarrow> i < length mc"
  by (simp add: bright_indices_def Let_def)

lemma bright_span:
  assumes "length (bright_indices cfg mc) > 10"
  shows "hd (bright_indices cfg mc) + 10 \<le> last (bright_indices cfg mc)"
    and "last (bright_indices cfg mc) < length mc"
proof -
  let ?b = "bright_indices cfg mc"
  from assms have ne: "?b \<noteq> []" by auto
  from strictly_increasing_span [OF bright_indices_sorted ne, of ] assms
  show "hd ?b + 10 \<le> last ?b" by simp
  from ne have "last ?b \<in> set ?b" by simp
  then show "last ?b < length mc" by (rule bright_indices_bound)
qed

text \<open>
  C4.  For a frame as wide as the region and a jitter in \<open>[-1, 1]\<close>, a target, when the
  extractor produces one (more than 10 bright columns), lies in
  \<open>[region.left, region.left + region.width)\<close>: the first and the last bright column
  are at least 10 apart, so their midpoint is at least 5 columns from either border.
\<close>

theorem target_x_inside_region:
  assumes "target_x cfg x fr = Some t"
    and "int (length (fr_mean_col fr)) = w"
    and "- 1 \<le> fr_jitter fr" and "fr_jitter fr \<le> 1"
  shows "of_int x \<le> t \<and> t < of_int x + of_int w"
proof -
  let ?b = "bright_indices cfg (fr_mean_col fr)"
  from assms(1) have many: "length ?b > 10"
    and t: "t = of_int x + (of_nat (hd ?b) + of_nat (last ?b)) / 2 + fr_jitter fr"
    by (auto simp: target_x_def Let_def split: if_splits)
  from bright_span [OF many] have span: "hd ?b + 10 \<le> last ?b"
    and top: "last ?b < length (fr_mean_col fr)" by auto
  define lo :: rat where "lo = of_nat (hd ?b)"
  define hi :: rat where "hi = of_nat (last ?b)"
  define width :: rat where "width = of_int w"
  define left :: rat where "left = of_int x"
  from span have "of_nat (hd ?b + 10) \<le> (of_nat (last ?b) :: rat)"
    by (simp only: of_nat_le_iff)
  then have a: "lo + 10 \<le> hi" by (simp add: lo_def hi_def)
  from top have "Suc (last ?b) \<le> length (fr_mean_col fr)" by simp
  then have "(of_nat (Suc (last ?b)) :: rat) \<le> of_nat (length (fr_mean_col fr))"
    by (simp only: of_nat_le_iff)
  moreover from assms(2) have "(of_nat (length (fr_mean_col fr)) :: rat) = of_int w"
    by (metis of_int_of_nat_eq)
  ultimately have b: "hi + 1 \<le> width" by (simp add: hi_def width_def)
  have c: "0 \<le> lo" by (simp add: lo_def)
  from t have t': "t = left + lo / 2 + hi / 2 + fr_jitter fr"
    by (simp add: lo_def hi_def left_def add_divide_distrib)
  from a b c t' assms(3,4) have "left \<le> t" by linarith
  moreover from a b c t' assms(3,4) have "t < left + width" by linarith
  ultimately show ?thesis by (simp add: left_def width_def)
qed



theorem target_x_inside_region_witness:
  "target_x default_config 519 (frame_at_edge 1) = Some 534
   \<and> (519 :: rat) \<le> 534 \<and> (534 :: rat) < 519 + 100"
proof -
  have wide: "int (length (fr_mean_col (frame_at_edge 1))) = 100"
    by (simp add: frame_at_edge_def demo_frame_def)
  have low: "- 1 \<le> fr_jitter (frame_at_edge 1)" and high: "fr_jitter (frame_at_edge 1) \<le> 1"
    by (simp_all add: frame_at_edge_def demo_frame_def)
  from target_x_inside_region [OF target_at_edge1 wide low high] target_at_edge1
  show ?thesis by simp
qed

subsection \<open>The click history\<close>

lemma push_history_take: "length h \<le> 15 \<Longrightarrow> push_history c h = take 15 (c # h)"
proof -
  assume len: "length h \<le> 15"
  show ?thesis
  proof (cases "length h = 15")
    case True
    then have "butlast (c # h) = take 15 (c # h)"
      by (simp add: butlast_conv_take)
    with True show ?thesis by (simp add: push_history_def Let_def)
  next
    case False
    with len show ?thesis by (simp add: push_history_def Let_def)
  qed
qed

lemma clicked_append: "clicked (as @ bs) = clicked as @ clicked bs"
  by (induction as rule: clicked.induct) simp_all

lemma take_append_take: "take n (xs @ take n ys) = take n (xs @ ys)"
  by (simp add: min_def)

lemma detection_tick_history:
  assumes "length (click_history s) \<le> 15"
    and "detection_tick cfg region has_prev fr s = (s', acts)"
  shows "click_history s' = take 15 (rev (clicked acts) @ click_history s)"
  using assms
  by (auto simp: detection_tick_def Let_def push_history_take
      split: prod.splits option.splits if_splits)

lemma detection_loop_history:
  "length (click_history s) \<le> 15 \<Longrightarrow>
   detection_loop cfg region has_prev waiting s obs = (s', tr, ended) \<Longrightarrow>
   click_history s' = take 15 (rev (clicked tr) @ click_history s)"
proof (induction obs arbitrary: s has_prev waiting tr)
  case Nil
  then show ?case by simp
next
  case (Cons ob obs)
  show ?case
  proof (cases "\<not> waiting \<and> \<not> d_running ob")
    case True
    with Cons.prems show ?thesis by auto
  next
    case live: False
    show ?thesis
    proof (cases "d_pause_open ob")
      case False
      with live Cons.prems(2) have "detection_loop cfg region has_prev True s obs = (s', tr, ended)"
        by auto
      from Cons.IH [OF Cons.prems(1) this] show ?thesis .
    next
      case True
      obtain s1 acts where tick: "detection_tick cfg region has_prev (d_frame ob) s = (s1, acts)"
        by (cases "detection_tick cfg region has_prev (d_frame ob) s")
      obtain tr1 where rest: "detection_loop cfg region True False s1 obs = (s', tr1, ended)"
        and tr: "tr = acts @ tr1"
        using live True Cons.prems(2) tick by (auto split: prod.splits)
      from detection_tick_history [OF Cons.prems(1) tick]
      have h1: "click_history s1 = take 15 (rev (clicked acts) @ click_history s)" .
      then have "length (click_history s1) \<le> 15" by simp
      from Cons.IH [OF this rest]
      have "click_history s' = take 15 (rev (clicked tr1) @ click_history s1)" .
      also have "\<dots> = take 15 (rev (clicked tr1) @ take 15 (rev (clicked acts) @ click_history s))"
        by (simp only: h1)
      also have "\<dots> = take 15 (rev (clicked tr1) @ rev (clicked acts) @ click_history s)"
        by (rule take_append_take)
      also have "rev (clicked tr1) @ rev (clicked acts) @ click_history s
          = rev (clicked tr) @ click_history s"
        by (simp only: tr clicked_append rev_append append_assoc)
      finally show ?thesis .
    qed
  qed
qed

text \<open>
  C8.  Whatever the detection loop has seen, the click history holds at most 15
  entries, and they are the coordinates of the clicks dispatched so far, the most recent
  first, followed by what the history held before, cut after the 15th entry: each
  click was put in front and the oldest dropped.
\<close>

theorem click_history_bounded_recent_first:
  assumes "length (click_history s) \<le> 15"
    and "detection_and_click_loop cfg region s obs = (s', tr, ended)"
  shows "length (click_history s') \<le> 15
    \<and> click_history s' = take 15 (rev (clicked tr) @ click_history s)"
proof -
  from assms(2) have "detection_loop cfg region False False s obs = (s', tr, ended)"
    by (simp add: detection_and_click_loop_def)
  from detection_loop_history [OF assms(1) this] show ?thesis by simp
qed


theorem click_history_bounded_recent_first_witness:
  "detection_and_click_loop default_config demo_region new_tool
     [tick_at (frame_at_edge 0), tick_at (frame_at_edge 1)]
   = (new_tool\<lparr>last_click_coords := ''(534, 873)'',
                 click_history := [''(534, 873)'', ''(533, 873)'']\<rparr>,
      [Click 533 873, Sleep (1 / 20), Sleep (1 / 200),
       Click 534 873, Sleep (1 / 20), Sleep (1 / 200)], False)
   \<and> length [''(534, 873)'', ''(533, 873)''] \<le> (15 :: nat)
   \<and> [''(534, 873)'', ''(533, 873)'']
     = take 15 (rev (clicked [Click 533 873, Sleep (1 / 20), Sleep (1 / 200),
                               Click 534 873, Sleep (1 / 20), Sleep (1 / 200)]) @ [])"
proof -
  have run: "detection_and_click_loop default_config demo_region new_tool
     [tick_at (frame_at_edge 0), tick_at (frame_at_edge 1)]
   = (new_tool\<lparr>last_click_coords := ''(534, 873)'',
                 click_history := [''(534, 873)'', ''(533, 873)'']\<rparr>,
      [Click 533 873, Sleep (1 / 20), Sleep (1 / 200),
       Click 534 873, Sleep (1 / 20), Sleep (1 / 200)], False)"
    by (simp add: detection_and_click_loop_def tick_at_def detection_tick_def latch_fires_def
        Let_def demo_cues)
      (simp add: demo_region_def default_config_def new_tool_def push_history_def demo_cues)
  have empty: "length (click_history new_tool) \<le> 15"
    by (simp add: new_tool_def)
  from click_history_bounded_recent_first [OF empty run] run
  show ?thesis by (simp add: new_tool_def)
qed

subsection \<open>The edge latch\<close>

lemma tick_latch_step:
  "(if latch_fires cfg region hp fr s then 1 else 0)
     + (if edge_armed (fst (detection_tick cfg region hp fr s)) then 1 else 0)
   \<le> length (clicked (snd (detection_tick cfg region hp fr s)))
     + (if edge_armed s then (1 :: nat) else 0)"
  by (auto simp: detection_tick_def latch_fires_def Let_def split: prod.splits option.splits)

lemma latch_firings_armed:
  "latch_firings cfg region hp frs s + (if edge_armed (fst (foldl (\<lambda>(s, hp) fr. (fst (detection_tick cfg region hp fr s), True)) (s, hp) frs)) then 1 else 0)
   \<le> clicks_dispatched cfg region hp frs s + (if edge_armed s then 1 else 0)"
proof (induction frs arbitrary: s hp)
  case Nil
  then show ?case by simp
next
  case (Cons fr frs)
  from Cons.IH [of True "fst (detection_tick cfg region hp fr s)"]
    tick_latch_step [of cfg region hp fr s]
  show ?case by (simp split: if_splits)
qed

text \<open>
  C5, as stated, fails: a dispatched click re-arms the latch at once, so while the
  marker box stays at the margin line and the clicks go on, the latch fires on every
  tick.  Two consecutive ticks in the edge-touch condition, two firings.
\<close>

theorem latch_fires_twice_in_one_touch:
  "edge_touch_condition default_config demo_region True (frame_at_edge 0)
   \<and> edge_touch_condition default_config demo_region True (frame_at_edge 1)
   \<and> latch_firings default_config demo_region True [frame_at_edge 0, frame_at_edge 1] new_tool = 2"
  by (simp add: edge_touch_condition_def latch_fires_def detection_tick_def Let_def demo_cues)
    (simp add: new_tool_def default_config_def demo_region_def demo_cues)

text \<open>
  C5, amended.  A firing disarms the latch and only a dispatched click arms it again:
  over any consecutive ticks the latch fires at most once more than clicks are
  dispatched (not even that once when it starts disarmed).  So it fires at most once
  between two clicks, and at most once in a run of ticks without a click.
\<close>

theorem latch_fires_once_per_click:
  "latch_firings cfg region hp frs s
   \<le> clicks_dispatched cfg region hp frs s + (if edge_armed s then 1 else 0)"
  using latch_firings_armed [of cfg region hp frs s] by (simp split: if_splits)


theorem latch_fires_once_per_click_witness:
  "clicks_dispatched default_config demo_region True
      [frame_edge_band_away, frame_edge_band_away, frame_edge_band_away] new_tool = 0
   \<and> latch_firings default_config demo_region True
      [frame_edge_band_away, frame_edge_band_away, frame_edge_band_away] new_tool \<le> 1"
proof -
  let ?frames = "[frame_edge_band_away, frame_edge_band_away, frame_edge_band_away]"
  have none: "clicks_dispatched default_config demo_region True ?frames new_tool = 0"
    by (simp add: detection_tick_def latch_fires_def Let_def demo_cues)
      (simp add: new_tool_def default_config_def demo_region_def)
  have armed: "edge_armed new_tool" by (simp add: new_tool_def)
  have "latch_firings default_config demo_region True ?frames new_tool
      \<le> clicks_dispatched default_config demo_region True ?frames new_tool
        + (if edge_armed new_tool then 1 else 0)"
    by (rule latch_fires_once_per_click)
  then have "latch_firings default_config demo_region True ?frames new_tool \<le> 0 + 1"
    by (simp only: none armed if_True)
  then have "latch_firings default_config demo_region True ?frames new_tool \<le> 1"
    by (simp only: add_0)
  with none show ?thesis by (rule conjI)
qed

section \<open>Properties of the loops and of stopping\<close>












definition short_sleeps :: "macro_config \<Rightarrow> action list \<Rightarrow> bool" where
  "short_sleeps cfg tr = (\<forall>d. Sleep d \<in> set tr \<longrightarrow> d = cooldown cfg \<or> d = 1 / 10)"

lemma short_sleeps_Nil [simp]: "short_sleeps cfg []"
  by (simp add: short_sleeps_def)

lemma short_sleeps_append [simp]:
  "short_sleeps cfg (as @ bs) \<longleftrightarrow> short_sleeps cfg as \<and> short_sleeps cfg bs"
  by (auto simp: short_sleeps_def)

lemma short_sleeps_Cons [simp]:
  "short_sleeps cfg (a # as) \<longleftrightarrow> (\<forall>d. a = Sleep d \<longrightarrow> d = cooldown cfg \<or> d = 1 / 10) \<and> short_sleeps cfg as"
  by (auto simp: short_sleeps_def)

lemma centre_click_no_sleep [simp]: "centre_click region \<noteq> Sleep d"
  by (simp add: centre_click_def split: prod.splits)

















subsection \<open>The movement loop and the global pause\<close>

lemma with_pauses_reads [simp]:
  "e_running (with_pauses g p e) = e_running e"
  "e_active (with_pauses g p e) = e_active e"
  "e_event (with_pauses g p e) = e_event e"
  "e_time (with_pauses g p e) = e_time e"
  by (simp_all add: with_pauses_def)

lemma click_until_event_blind:
  "click_until_event cfg region (map (with_pauses g p) es)
   = map_option (\<lambda>(tr, rest). (tr, map (with_pauses g p) rest)) (click_until_event cfg region es)"
  by (induction es) (auto split: option.splits)

lemma wait_event_over_blind:
  "wait_event_over (map (with_pauses g p) es)
   = map_option (\<lambda>(tr, rest). (tr, map (with_pauses g p) rest)) (wait_event_over es)"
  by (induction es) (auto split: option.splits)

lemma hold_for_interval_blind:
  "hold_for_interval cfg region start_time (map (with_pauses g p) es)
   = map_option (\<lambda>(tr, rest). (tr, map (with_pauses g p) rest))
       (hold_for_interval cfg region start_time es)"
  by (induction es) (auto split: option.splits)

lemma movement_loop_blind:
  "movement_loop cfg region direction phase (map (with_pauses g p) es)
   = movement_loop cfg region direction phase es"
proof (induction cfg region direction phase es rule: movement_loop.induct)
  case (1 cfg region direction phase)
  then show ?case by simp
next
  case (2 cfg region direction phase e es)
  show ?case
  proof (cases "e_running e")
    case False
    then show ?thesis by simp
  next
    case run: True
    show ?thesis
    proof (cases "e_active e \<and> phase = Start \<and> \<not> e_event e")
      case True
      show ?thesis
      proof (cases "click_until_event cfg region es")
        case None
        with run True show ?thesis by (simp add: click_until_event_blind)
      next
        case (Some res)
        obtain tr rest where res: "res = (tr, rest)" by (cases res)
        from "2.IH"(1) [OF _ True Some res [symmetric]] run
        have "movement_loop cfg region direction PostEvent (map (with_pauses g p) rest)
            = movement_loop cfg region direction PostEvent rest" by simp
        with run True Some res show ?thesis by (simp add: click_until_event_blind)
      qed
    next
      case notstart: False
      show ?thesis
      proof (cases "e_active e \<and> phase = PostEvent")
        case True
        show ?thesis
        proof (cases "wait_event_over es")
          case None
          with run notstart True show ?thesis by (simp add: wait_event_over_blind)
        next
          case (Some res)
          obtain waited rest where res: "res = (waited, rest)" by (cases res)
          show ?thesis
          proof (cases rest)
            case Nil
            with run notstart True Some res show ?thesis by (simp add: wait_event_over_blind)
          next
            case (Cons e1 rest1)
            show ?thesis
            proof (cases "hold_for_interval cfg region (e_time e1) rest1")
              case None
              with run notstart True Some res Cons show ?thesis
                by (simp add: wait_event_over_blind hold_for_interval_blind)
            next
              case inner: (Some res2)
              obtain tr rest2 where res2: "res2 = (tr, rest2)" by (cases res2)
              from "2.IH"(2) [OF _ notstart True Some res [symmetric] Cons inner res2 [symmetric]] run
              have "movement_loop cfg region (flip direction) Start (map (with_pauses g p) rest2)
                  = movement_loop cfg region (flip direction) Start rest2" by simp
              with run notstart True Some res Cons inner res2 show ?thesis
                by (simp add: wait_event_over_blind hold_for_interval_blind)
            qed
          qed
        qed
      next
        case False
        from "2.IH"(3) [OF _ notstart False] run
        have ih: "movement_loop cfg region direction phase (map (with_pauses g p) es)
            = movement_loop cfg region direction phase es" by simp
        from notstart have a: "(e_active e \<and> phase = Start \<and> \<not> e_event e) = False"
          by simp
        from False have b: "(e_active e \<and> phase = PostEvent) = False"
          by simp
        show ?thesis by (simp add: ih a b run)
      qed
    qed
  qed
qed

lemma movement_click_loop_blind:
  "movement_click_loop cfg region (map (with_pauses g p) es) = movement_click_loop cfg region es"
  by (simp add: movement_click_loop_def movement_loop_blind)




lemma detection_loop_paused:
  "\<forall>ob \<in> set obs. \<not> d_pause_open ob \<Longrightarrow> waiting \<or> obs = [] \<or> d_running (hd obs) \<Longrightarrow>
     detection_loop cfg region hp waiting s obs = (s, [], False)"
proof (induction obs arbitrary: waiting)
  case Nil
  then show ?case by simp
next
  case (Cons ob obs)
  then show ?case by simp
qed


text \<open>
  C1.  The detection loop, like the assist and the periodic-key loops, waits on the
  global pause at the top of a pass: with the pause closed it injects nothing.  The
  movement loop has no such wait, and what it does is the same whatever the pause events
  are (\<open>movement_click_loop_blind\<close>): with the global pause closed at every reading it
  presses \<^verbatim>\<open>w\<close> and the direction key and clicks the centre of the region.
\<close>

theorem movement_ignores_global_pause:
  "detection_and_click_loop default_config demo_region new_tool
     [\<lparr>d_running = True, d_pause_open = False, d_frame = frame_at_edge 0\<rparr>,
      \<lparr>d_running = True, d_pause_open = False, d_frame = frame_at_edge 1\<rparr>]
   = (new_tool, [], False)
   \<and> movement_click_loop default_config demo_region
     [paused, paused, paused\<lparr>e_event := True\<rparr>, paused\<lparr>e_running := False\<rparr>]
   = Some [KeyPress (KStr ''w''), KeyPress KRight, Click 569 873, Sleep (1 / 20),
           KeyRelease (KStr ''w''), KeyRelease KRight, Sleep (1 / 20)]
   \<and> \<not> e_global_open paused"
  by (simp add: detection_and_click_loop_def movement_click_loop_def paused_def
      default_config_def demo_region_def centre_click_def)

subsection \<open>Stopping a session\<close>




subsection \<open>The edge latch across sessions\<close>

text \<open>
  C10.  The latch fields are set by \<^verbatim>\<open>__init__\<close> and written by neither \<^verbatim>\<open>stop\<close>
  nor \<^verbatim>\<open>start\<close>: a stop followed by a start leaves them as they were.  So a session
  that starts with \<^verbatim>\<open>edge_touched\<close> set dispatches a click on a tick whose marker box
  is nowhere near a margin line, as soon as the target lies within the click tolerance
  of the box.
\<close>

theorem edge_latch_survives_restart:
  assumes "start region_entries configuration auto_move (fst (stop alive s)) = Inr s'"
  shows "\<not> edge_touched new_tool \<and> edge_armed new_tool
    \<and> edge_touched (fst (stop alive s)) = edge_touched s
    \<and> edge_armed (fst (stop alive s)) = edge_armed s
    \<and> edge_touched s' = edge_touched s \<and> edge_armed s' = edge_armed s
    \<and> (edge_touched s \<and> cue cfg region has_prev fr = Some ((bar_left, bar_right), t)
        \<and> \<not> edge_near region (bar_left, bar_right)
        \<and> of_int bar_left - click_tolerance cfg \<le> t \<and> t \<le> of_int bar_right + click_tolerance cfg
        \<longrightarrow> (\<exists>cx cy. Click cx cy \<in> set (snd (detection_tick cfg region has_prev fr s'))))"
proof -
  have init: "\<not> edge_touched new_tool \<and> edge_armed new_tool"
    by (simp add: new_tool_def)
  have stopped: "edge_touched (fst (stop alive s)) = edge_touched s
      \<and> edge_armed (fst (stop alive s)) = edge_armed s"
    by (simp add: stop_def)
  from assms have started: "edge_touched s' = edge_touched (fst (stop alive s))
      \<and> edge_armed s' = edge_armed (fst (stop alive s))"
    by (auto simp: start_def split: if_splits option.splits sum.splits)
  have click: "\<exists>cx cy. Click cx cy \<in> set (snd (detection_tick cfg region has_prev fr s'))"
    if "edge_touched s" and "cue cfg region has_prev fr = Some ((bar_left, bar_right), t)"
      and "\<not> edge_near region (bar_left, bar_right)"
      and "of_int bar_left - click_tolerance cfg \<le> t"
      and "t \<le> of_int bar_right + click_tolerance cfg"
  proof -
    from that(1) started stopped have "edge_touched s'" by simp
    with that(2-5) show ?thesis
      by (cases region) (auto simp: detection_tick_def latch_fires_def Let_def)
  qed
  from init stopped started click show ?thesis by simp
qed

theorem edge_latch_survives_restart_witness:
  "detection_tick default_config demo_region True frame_edge_band_away new_tool
     = (new_tool\<lparr>edge_touched := True, edge_armed := False\<rparr>, [Sleep (1 / 200)])
   \<and> start (Some demo_region) (Inr default_config) True
        (fst (stop (\<lambda>t. True) (new_tool\<lparr>edge_touched := True, edge_armed := False\<rparr>)))
     = Inr (new_tool\<lparr>edge_touched := True, edge_armed := False, running := True, active := True,
                     config := Some default_config, threads := Some (launched default_config)\<rparr>)
   \<and> (\<exists>cx cy. Click cx cy \<in> set (snd (detection_tick default_config demo_region False frame_mid
        (new_tool\<lparr>edge_touched := True, edge_armed := False, running := True, active := True,
                     config := Some default_config, threads := Some (launched default_config)\<rparr>))))"
proof -
  let ?s = "new_tool\<lparr>edge_touched := True, edge_armed := False\<rparr>"
  let ?s' = "new_tool\<lparr>edge_touched := True, edge_armed := False, running := True, active := True,
                     config := Some default_config, threads := Some (launched default_config)\<rparr>"
  have touched: "detection_tick default_config demo_region True frame_edge_band_away new_tool
     = (?s, [Sleep (1 / 200)])"
    by (simp add: detection_tick_def latch_fires_def Let_def demo_cues)
      (simp add: new_tool_def default_config_def demo_region_def)
  have restart: "start (Some demo_region) (Inr default_config) True (fst (stop (\<lambda>t. True) ?s)) = Inr ?s'"
    by (simp add: start_def stop_def new_tool_def)
  have tolerance: "of_int 564 - click_tolerance default_config \<le> (564 :: rat)"
    "(564 :: rat) \<le> of_int 572 + click_tolerance default_config"
    by (simp_all add: default_config_def)
  have was: "edge_touched ?s" by simp
  from edge_latch_survives_restart [OF restart, of default_config demo_region False frame_mid 564 572 564]
    was cue_mid [of False] not_near_mid tolerance
  have "\<exists>cx cy. Click cx cy \<in> set (snd (detection_tick default_config demo_region False frame_mid ?s'))"
    by blast
  with touched restart show ?thesis by blast
qed

end
